theory Spec2Isabelle
  imports Main
begin

section \<open>Data model\<close>

text \<open>
  Go error values. The server package builds two errors itself
  (\<^verbatim>\<open>fmt.Errorf("Could not get the %s auth provider", name)\<close> and
  \<^verbatim>\<open>fmt.Errorf("No auth provider configured")\<close>); every other error is handed over
  by a collaborator (a provider, the settings client, the signer, strconv) and is opaque.
\<close>

datatype error =
    CouldNotGetProvider string
  | NoAuthProviderConfigured
  | External string

text \<open>
  \<^verbatim>\<open>client.Resource\<close> is embedded in every API object; Go promotes its fields, which a
  record extension does as well. The field \<^verbatim>\<open>Id\<close> is written \<open>Id'\<close>.
\<close>

record Resource =
  Id' :: string
  Type :: string

record Identity = Resource +
  ExternalId :: string
  ExternalIdType :: string
  Login :: string
  Name :: string
  ProfilePicture :: string
  ProfileUrl :: string

text \<open>
  Modelled from the spec: \<^verbatim>\<open>model.AuthConfig\<close> and \<^verbatim>\<open>model.Token\<close> are declared in
  package model, which is not part of the sources at hand. AuthConfig has the fields the
  server reads and writes plus the provider-owned fields, kept opaque as a list of
  key/value pairs. Token has the four fields the server copies into the claims payload
  (its own \<^verbatim>\<open>Type\<close> field is written \<open>Type'\<close>).
\<close>

record AuthConfig = Resource +
  Provider :: string
  Enabled :: bool
  AccessMode :: string
  AllowedIdentities :: "Identity list"
  ProviderConfig :: "(string \<times> string) list"

record Token =
  Type' :: string
  ExternalAccountID :: string
  AccessToken :: string
  IdentityList :: "Identity list"

text \<open>The setting keys (the constants of the server package).\<close>

definition accessModeSetting :: string where
  "accessModeSetting = ''api.auth.github.access.mode''"

definition allowedIdentitiesSetting :: string where
  "allowedIdentitiesSetting = ''api.auth.github.allowed.identities''"

definition providerSetting :: string where
  "providerSetting = ''api.auth.provider.configured''"

definition providerNameSetting :: string where
  "providerNameSetting = ''api.auth.provider.name.configured''"

definition securitySetting :: string where
  "securitySetting = ''api.security.enabled''"

section \<open>Collaborators\<close>

text \<open>
  The settings client (\<^verbatim>\<open>rancherClient.Setting\<close>) belongs to an external library. It
  is modelled as a key/value service: \<open>db\<close> holds the stored values, a key that was never
  written reads as the empty string, and the two fault tables say which round trips
  fail and with which error. \<open>ById\<close> fetches a setting, \<open>Update\<close> stores a new value
  under the id of the setting it is given.
\<close>

record Setting = Resource +
  ActiveValue :: string

record SettingClient =
  db :: "string \<rightharpoonup> string"
  byIdFault :: "string \<Rightarrow> error option"
  updateFault :: "string \<Rightarrow> string \<Rightarrow> error option"

definition ById :: "SettingClient \<Rightarrow> string \<Rightarrow> error + Setting" where
  "ById st key =
     (case byIdFault st key of
        Some err \<Rightarrow> Inl err
      | None \<Rightarrow>
          Inr \<lparr>Id' = key, Type = ''setting'',
               ActiveValue = (case db st key of None \<Rightarrow> [] | Some v \<Rightarrow> v)\<rparr>)"

definition Update :: "SettingClient \<Rightarrow> Setting \<Rightarrow> string \<Rightarrow> error + SettingClient" where
  "Update st setting val =
     (case updateFault st (Id' setting) val of
        Some err \<Rightarrow> Inl err
      | None \<Rightarrow> Inr (st\<lparr>db := (db st)(Id' setting \<mapsto> val)\<rparr>))"

text \<open>
  Package providers is not part of the sources at hand: the registry
  (\<^verbatim>\<open>providers.GetProvider\<close>) and the methods of the \<^verbatim>\<open>IdentityProvider\<close> interface are
  parameters. \<open>'p\<close> is the type of provider instances; a method takes the instance it
  is called on first. \<^verbatim>\<open>LoadConfig\<close> mutates its receiver, so it returns the loaded
  instance; \<^verbatim>\<open>AddProviderConfig\<close> receives a pointer to the config, so it returns the
  config it leaves behind. Methods whose names the server package uses for its own
  functions carry a prime.
\<close>

record 'p providers =
  GetProvider :: "string \<Rightarrow> 'p option"
  LoadConfig :: "'p \<Rightarrow> AuthConfig \<Rightarrow> error + 'p"
  GetSettings :: "'p \<Rightarrow> (string \<rightharpoonup> string)"
  GetProviderSettingList :: "'p \<Rightarrow> string list"
  AddProviderConfig :: "'p \<Rightarrow> AuthConfig \<Rightarrow> (string \<rightharpoonup> string) \<Rightarrow> AuthConfig"
  GenerateToken :: "'p \<Rightarrow> string \<Rightarrow> error + Token"
  RefreshToken' :: "'p \<Rightarrow> string \<Rightarrow> error + Token"
  GetIdentity' :: "'p \<Rightarrow> string \<Rightarrow> string \<Rightarrow> string \<Rightarrow> error + Identity"
  GetIdentities' :: "'p \<Rightarrow> string \<Rightarrow> error + Identity list"
  SearchIdentities' :: "'p \<Rightarrow> string \<Rightarrow> bool \<Rightarrow> string \<Rightarrow> error + Identity list"

text \<open>
  The mutable package variables of the server: the active provider (nil at start), the
  config in memory, and the settings service behind \<^verbatim>\<open>rancherClient\<close>.
\<close>

record 'p server =
  provider :: "'p option"
  authConfigInMemory :: AuthConfig
  rancherClient :: SettingClient

section \<open>Library functions of Go\<close>

text \<open>\<^verbatim>\<open>strings.Join(elems, sep)\<close>.\<close>

fun Join :: "string list \<Rightarrow> string \<Rightarrow> string" where
  "Join [] sep = []"
| "Join [a] sep = a"
| "Join (a # b # rest) sep = a @ sep @ Join (b # rest) sep"

text \<open>
  \<^verbatim>\<open>strings.Split(s, sep)\<close> for a separator of one byte: the pieces between the
  separators, one more piece than there are separators (so one empty piece for the
  empty string).
\<close>

fun Split :: "string \<Rightarrow> char \<Rightarrow> string list" where
  "Split [] sep = [[]]"
| "Split (c # s) sep =
     (if c = sep then [] # Split s sep
      else (case Split s sep of
              [] \<Rightarrow> [[c]]
            | piece # pieces \<Rightarrow> (c # piece) # pieces))"

text \<open>
  \<^verbatim>\<open>strings.SplitN(s, sep, 2)\<close> for a separator of one byte: the string itself when it
  has no separator, else what is before the first separator and what is after it.
\<close>

definition SplitN2 :: "string \<Rightarrow> char \<Rightarrow> string list" where
  "SplitN2 s sep =
     (case dropWhile (\<lambda>c. c \<noteq> sep) s of
        [] \<Rightarrow> [s]
      | _ # after \<Rightarrow> [takeWhile (\<lambda>c. c \<noteq> sep) s, after])"

text \<open>\<^verbatim>\<open>strconv.FormatBool\<close> and \<^verbatim>\<open>strconv.ParseBool\<close>.\<close>

definition FormatBool :: "bool \<Rightarrow> string" where
  "FormatBool b = (if b then ''true'' else ''false'')"

definition ParseBool :: "string \<Rightarrow> error + bool" where
  "ParseBool s =
     (if s \<in> set [''1'', ''t'', ''T'', ''TRUE'', ''true'', ''True''] then Inr True
      else if s \<in> set [''0'', ''f'', ''F'', ''FALSE'', ''false'', ''False''] then Inr False
      else Inl (External ''strconv.ParseBool: invalid syntax''))"

text \<open>Reading a Go map: the zero value (the empty string) for a key that is absent.\<close>

definition index :: "(string \<rightharpoonup> string) \<Rightarrow> string \<Rightarrow> string" where
  "index m key = (case m key of None \<Rightarrow> [] | Some v \<Rightarrow> v)"

section \<open>The server package\<close>

definition initProviderWithConfig :: "'p providers \<Rightarrow> AuthConfig \<Rightarrow> error + 'p" where
  "initProviderWithConfig P authConfig =
     (case GetProvider P (Provider authConfig) of
        None \<Rightarrow> Inl (CouldNotGetProvider (Provider authConfig))
      | Some newProvider \<Rightarrow>
          (case LoadConfig P newProvider authConfig of
             Inl err \<Rightarrow> Inl err
           | Inr loaded \<Rightarrow> Inr loaded))"

text \<open>
  \<^verbatim>\<open>readSettings\<close>: the loop fills \<open>dbSettings\<close> key by key and stops at the first read
  that fails, returning what it has read so far together with the error.
\<close>

fun readSettings_loop ::
  "SettingClient \<Rightarrow> string list \<Rightarrow> (string \<rightharpoonup> string) \<Rightarrow> (string \<rightharpoonup> string) \<times> error option"
where
  "readSettings_loop st [] dbSettings = (dbSettings, None)"
| "readSettings_loop st (key # rest) dbSettings =
     (case ById st key of
        Inl err \<Rightarrow> (dbSettings, Some err)
      | Inr setting \<Rightarrow> readSettings_loop st rest (dbSettings(key \<mapsto> ActiveValue setting)))"

definition readSettings ::
  "SettingClient \<Rightarrow> string list \<Rightarrow> (string \<rightharpoonup> string) \<times> error option" where
  "readSettings st settings = readSettings_loop st settings Map.empty"

text \<open>
  \<^verbatim>\<open>updateSettings\<close>: Go's \<^verbatim>\<open>range\<close> visits the keys of the map in an order the language
  leaves open. The list \<open>order\<close> is that order: the loop takes the keys from it and
  visits those that are in the map. The function returns the error (or none) and the
  settings service as the writes done so far have left it.
\<close>

fun updateSettings ::
  "SettingClient \<Rightarrow> string list \<Rightarrow> (string \<rightharpoonup> string) \<Rightarrow> error option \<times> SettingClient"
where
  "updateSettings st [] settings = (None, st)"
| "updateSettings st (key # rest) settings =
     (case settings key of
        None \<Rightarrow> updateSettings st rest settings
      | Some val \<Rightarrow>
          if val \<noteq> [] then
            (case ById st key of
               Inl err \<Rightarrow> (Some err, st)
             | Inr setting \<Rightarrow>
                 (case Update st setting val of
                    Inl err \<Rightarrow> (Some err, st)
                  | Inr st' \<Rightarrow> updateSettings st' rest settings))
          else updateSettings st rest settings)"

definition getAllowedIDString :: "'p server \<Rightarrow> Identity list \<Rightarrow> string" where
  "getAllowedIDString s allowedIdentities =
     (if provider s \<noteq> None then Join (map Id' allowedIdentities) '','' else [])"

text \<open>
  The loop of \<^verbatim>\<open>getAllowedIdentities\<close> over the entries of the split string; the
  identities come out in the order in which the source appends them.
\<close>

fun getAllowedIdentities_loop ::
  "'p providers \<Rightarrow> 'p server \<Rightarrow> string \<Rightarrow> string list \<Rightarrow> Identity list" where
  "getAllowedIdentities_loop P s accessToken [] = []"
| "getAllowedIdentities_loop P s accessToken (id' # rest) =
     (let parts = SplitN2 id' CHR '':'' in
      if length parts < 2 then getAllowedIdentities_loop P s accessToken rest
      else
        (let stub = \<lparr>Id' = id', Type = ''identity'',
                     ExternalId = parts ! 1, ExternalIdType = parts ! 0,
                     Login = [], Name = [], ProfilePicture = [], ProfileUrl = []\<rparr>
         in case provider s of
              None \<Rightarrow> stub # getAllowedIdentities_loop P s accessToken rest
            | Some p \<Rightarrow>
                if accessToken \<noteq> [] then
                  (case GetIdentity' P p (parts ! 1) (parts ! 0) accessToken of
                     Inr identity \<Rightarrow> identity # getAllowedIdentities_loop P s accessToken rest
                   | Inl err \<Rightarrow> stub # getAllowedIdentities_loop P s accessToken rest)
                else stub # getAllowedIdentities_loop P s accessToken rest))"

definition getAllowedIdentities ::
  "'p providers \<Rightarrow> 'p server \<Rightarrow> string \<Rightarrow> string \<Rightarrow> Identity list" where
  "getAllowedIdentities P s idString accessToken =
     (if idString \<noteq> [] then
        getAllowedIdentities_loop P s accessToken (Split idString CHR '','')
      else [])"

text \<open>
  The settings map \<^verbatim>\<open>UpdateConfig\<close> builds before it writes: what the new provider
  exports, then the generic keys assigned over it.
\<close>

definition providerSettings_of ::
  "'p providers \<Rightarrow> 'p server \<Rightarrow> 'p \<Rightarrow> AuthConfig \<Rightarrow> (string \<rightharpoonup> string)" where
  "providerSettings_of P s newProvider authConfig =
     (let providerSettings = GetSettings P newProvider;
          providerSettings = providerSettings(accessModeSetting \<mapsto> AccessMode authConfig);
          providerSettings = providerSettings(allowedIdentitiesSetting \<mapsto>
                               getAllowedIDString s (AllowedIdentities authConfig));
          providerSettings = providerSettings(securitySetting \<mapsto> FormatBool (Enabled authConfig));
          providerSettings = providerSettings(providerNameSetting \<mapsto> Provider authConfig)
      in if Enabled authConfig
         then providerSettings(providerSetting \<mapsto> Provider authConfig)
         else providerSettings)"

definition UpdateConfig ::
  "'p providers \<Rightarrow> string list \<Rightarrow> AuthConfig \<Rightarrow> 'p server \<Rightarrow> error option \<times> 'p server" where
  "UpdateConfig P order authConfig s =
     (case initProviderWithConfig P authConfig of
        Inl err \<Rightarrow> (Some err, s)
      | Inr newProvider \<Rightarrow>
          (case updateSettings (rancherClient s) order
                  (providerSettings_of P s newProvider authConfig) of
             (Some err, st) \<Rightarrow> (Some err, s\<lparr>rancherClient := st\<rparr>)
           | (None, st) \<Rightarrow>
               (None, s\<lparr>provider := Some newProvider, authConfigInMemory := authConfig,
                        rancherClient := st\<rparr>)))"

definition GetConfig :: "'p providers \<Rightarrow> string \<Rightarrow> 'p server \<Rightarrow> AuthConfig \<times> error option" where
  "GetConfig P accessToken s =
     (let config = \<lparr>Id' = [], Type = ''config'', Provider = [], Enabled = False,
                    AccessMode = [], AllowedIdentities = [], ProviderConfig = []\<rparr>;
          settings = [accessModeSetting, allowedIdentitiesSetting, securitySetting,
                      providerSetting, providerNameSetting]
      in case readSettings (rancherClient s) settings of
           (dbSettings, Some err) \<Rightarrow> (config, Some err)
         | (dbSettings, None) \<Rightarrow>
             (let config = config\<lparr>AccessMode := index dbSettings accessModeSetting\<rparr>;
                  config = config\<lparr>AllowedIdentities :=
                             getAllowedIdentities P s (index dbSettings allowedIdentitiesSetting)
                               accessToken\<rparr>;
                  config = config\<lparr>Enabled :=
                             (case ParseBool (index dbSettings securitySetting) of
                                Inr enabled \<Rightarrow> enabled
                              | Inl err \<Rightarrow> False)\<rparr>;
                  providerNameInDb = index dbSettings providerNameSetting;
                  config = config\<lparr>Provider := providerNameInDb\<rparr>
              in case GetProvider P (Provider config) of
                   None \<Rightarrow> (config, Some (CouldNotGetProvider (Provider config)))
                 | Some newProvider \<Rightarrow>
                     (case readSettings (rancherClient s)
                             (GetProviderSettingList P newProvider) of
                        (providerSettings, err) \<Rightarrow>
                          (AddProviderConfig P newProvider config providerSettings, None))))"

definition Reload :: "'p providers \<Rightarrow> 'p server \<Rightarrow> error option \<times> 'p server" where
  "Reload P s =
     (case GetConfig P [] s of
        (authConfig, err) \<Rightarrow>
          (case initProviderWithConfig P authConfig of
             Inl err \<Rightarrow> (Some err, s)
           | Inr newProvider \<Rightarrow>
               (None, s\<lparr>provider := Some newProvider, authConfigInMemory := authConfig\<rparr>)))"

text \<open>
  The claims payload is a \<^verbatim>\<open>map[string]interface{}\<close>; its values are strings, a list
  of strings and a list of identities.
\<close>

datatype claim_value =
    Str string
  | StrList "string list"
  | Identities "Identity list"

definition identitiesToIDList :: "Identity list \<Rightarrow> string list" where
  "identitiesToIDList identities = map Id' identities"

text \<open>
  The five assignments that fill the payload, the same in \<^verbatim>\<open>CreateToken\<close> and
  \<^verbatim>\<open>RefreshToken\<close>.
\<close>

definition payload_of :: "Token \<Rightarrow> (string \<rightharpoonup> claim_value)" where
  "payload_of token =
     (let payload = Map.empty;
          payload = payload(''token'' \<mapsto> Str (Type' token));
          payload = payload(''account_id'' \<mapsto> Str (ExternalAccountID token));
          payload = payload(''access_token'' \<mapsto> Str (AccessToken token));
          payload = payload(''idList'' \<mapsto> StrList (identitiesToIDList (IdentityList token)));
          payload = payload(''identities'' \<mapsto> Identities (IdentityList token))
      in payload)"

text \<open>
  \<^verbatim>\<open>util.CreateTokenWithPayload\<close> with the private key is the parameter
  \<open>CreateTokenWithPayload\<close>: package util is not part of the sources at hand.
\<close>

definition CreateToken ::
  "'p providers \<Rightarrow> ((string \<rightharpoonup> claim_value) \<Rightarrow> error + string) \<Rightarrow> 'p server \<Rightarrow> string
     \<Rightarrow> error + string" where
  "CreateToken P CreateTokenWithPayload s securityCode =
     (case provider s of
        Some p \<Rightarrow>
          (case GenerateToken P p securityCode of
             Inl err \<Rightarrow> Inl err
           | Inr token \<Rightarrow> CreateTokenWithPayload (payload_of token))
      | None \<Rightarrow> Inl NoAuthProviderConfigured)"

definition RefreshToken ::
  "'p providers \<Rightarrow> ((string \<rightharpoonup> claim_value) \<Rightarrow> error + string) \<Rightarrow> 'p server \<Rightarrow> string
     \<Rightarrow> error + string" where
  "RefreshToken P CreateTokenWithPayload s accessToken =
     (case provider s of
        Some p \<Rightarrow>
          (case RefreshToken' P p accessToken of
             Inl err \<Rightarrow> Inl err
           | Inr token \<Rightarrow> CreateTokenWithPayload (payload_of token))
      | None \<Rightarrow> Inl NoAuthProviderConfigured)"

text \<open>
  The handler of POST /authconfig (package service), from the point where the request
  body has been decoded into \<open>authConfig\<close>. Each call of \<^verbatim>\<open>ReturnHTTPError\<close> adds a
  status and a message to the responses; the handler does not return after the check of
  the provider field, so the server's \<^verbatim>\<open>UpdateConfig\<close> runs in every case.
\<close>

definition UpdateConfig_handler ::
  "'p providers \<Rightarrow> string list \<Rightarrow> AuthConfig \<Rightarrow> 'p server \<Rightarrow> (nat \<times> string) list \<times> 'p server"
where
  "UpdateConfig_handler P order authConfig s =
     (let required =
            (if Provider authConfig = []
             then [(400, ''Bad Request, Please check the request content, Provider is a required field'')]
             else [])
      in case UpdateConfig P order authConfig s of
           (Some err, s') \<Rightarrow>
             (required @ [(400, ''Bad Request, Please check the request content'')], s')
         | (None, s') \<Rightarrow> (required, s'))"

section \<open>A sample deployment\<close>

text \<open>
  One provider, registered under the name githubconfig. An instance is the list of
  key/value pairs it has loaded; it exports them as settings, declares one key of its
  own, and resolves identities for the access token \<open>''tok''\<close> only.
\<close>

definition ex_identity :: Identity where
  "ex_identity =
     \<lparr>Id' = ''user:abc'', Type = ''identity'', ExternalId = ''abc'', ExternalIdType = ''user'',
      Login = ''abc'', Name = ''A B C'', ProfilePicture = [], ProfileUrl = []\<rparr>"

definition ex_token :: Token where
  "ex_token =
     \<lparr>Type' = ''github'', ExternalAccountID = ''abc'', AccessToken = ''tok'',
      IdentityList = [ex_identity]\<rparr>"

definition ex_providers :: "(string \<times> string) list providers" where
  "ex_providers =
     \<lparr>GetProvider = (\<lambda>name. if name = ''githubconfig'' then Some [] else None),
      LoadConfig = (\<lambda>p authConfig. Inr (ProviderConfig authConfig)),
      GetSettings = (\<lambda>p. map_of p),
      GetProviderSettingList = (\<lambda>p. [''api.github.domain'']),
      AddProviderConfig = (\<lambda>p config settings.
         config\<lparr>ProviderConfig := [(''api.github.domain'', index settings ''api.github.domain'')]\<rparr>),
      GenerateToken = (\<lambda>p code. if code = ''code'' then Inr ex_token
                                  else Inl (External ''bad code'')),
      RefreshToken' = (\<lambda>p tok. if tok = ''tok'' then Inr ex_token
                                 else Inl (External ''bad token'')),
      GetIdentity' = (\<lambda>p externalID externalIDType tok.
         if tok = ''tok''
         then Inr \<lparr>Id' = externalIDType @ '':'' @ externalID, Type = ''identity'',
                   ExternalId = externalID, ExternalIdType = externalIDType,
                   Login = externalID, Name = externalID, ProfilePicture = [], ProfileUrl = []\<rparr>
         else Inl (External ''bad token'')),
      GetIdentities' = (\<lambda>p tok. Inr []),
      SearchIdentities' = (\<lambda>p name exactMatch tok. Inr [])\<rparr>"

definition ex_config :: AuthConfig where
  "ex_config =
     \<lparr>Id' = [], Type = ''config'', Provider = ''githubconfig'', Enabled = True,
      AccessMode = ''restricted'', AllowedIdentities = [ex_identity],
      ProviderConfig = [(''api.github.domain'', ''github.example.com'')]\<rparr>"

definition ex_disabled :: AuthConfig where
  "ex_disabled = ex_config\<lparr>Enabled := False\<rparr>"

definition ex_empty :: AuthConfig where
  "ex_empty =
     \<lparr>Id' = [], Type = [], Provider = [], Enabled = False, AccessMode = [],
      AllowedIdentities = [], ProviderConfig = []\<rparr>"

definition ex_order :: "string list" where
  "ex_order =
     [providerNameSetting, ''api.github.domain'', securitySetting, accessModeSetting,
      providerSetting, allowedIdentitiesSetting]"

definition ex_client :: SettingClient where
  "ex_client = \<lparr>db = Map.empty, byIdFault = (\<lambda>key. None), updateFault = (\<lambda>key val. None)\<rparr>"

text \<open>The server at start: no provider is active.\<close>

definition ex_start :: "(string \<times> string) list server" where
  "ex_start = \<lparr>provider = None, authConfigInMemory = ex_empty, rancherClient = ex_client\<rparr>"

text \<open>The server with a provider active and settings stored by an earlier update.\<close>

definition ex_running :: "(string \<times> string) list server" where
  "ex_running =
     \<lparr>provider = Some [], authConfigInMemory = ex_config,
      rancherClient = ex_client\<lparr>db :=
        [providerNameSetting \<mapsto> ''githubconfig'', providerSetting \<mapsto> ''githubconfig'',
         securitySetting \<mapsto> ''true'', accessModeSetting \<mapsto> ''unrestricted'',
         allowedIdentitiesSetting \<mapsto> ''user:xyz'',
         ''api.github.domain'' \<mapsto> ''github.example.com'']\<rparr>\<rparr>"

text \<open>The same server when the settings service fails to read the provider's own key.\<close>

definition ex_read_fault :: "(string \<times> string) list server" where
  "ex_read_fault =
     ex_running\<lparr>rancherClient := (rancherClient ex_running)\<lparr>byIdFault :=
       (\<lambda>key. if key = ''api.github.domain'' then Some (External ''timeout'') else None)\<rparr>\<rparr>"

text \<open>The same server when the settings service fails to write the access mode.\<close>

definition ex_write_fault :: "(string \<times> string) list server" where
  "ex_write_fault =
     ex_running\<lparr>rancherClient := (rancherClient ex_running)\<lparr>updateFault :=
       (\<lambda>key val. if key = accessModeSetting then Some (External ''timeout'') else None)\<rparr>\<rparr>"

text \<open>A signer that fails on a payload with no id list and else returns the ids, joined.\<close>

definition ex_sign :: "(string \<rightharpoonup> claim_value) \<Rightarrow> error + string" where
  "ex_sign payload =
     (case payload ''idList'' of
        Some (StrList ids) \<Rightarrow> Inr (Join ids '','')
      | _ \<Rightarrow> Inl (External ''signing failed''))"

section \<open>Auxiliary facts\<close>

lemmas setting_keys = accessModeSetting_def allowedIdentitiesSetting_def providerSetting_def
  providerNameSetting_def securitySetting_def

subsection \<open>The settings loop\<close>

lemma ById_Inl: "ById st key = Inl err \<longleftrightarrow> byIdFault st key = Some err"
  by (simp add: ById_def split: option.splits)

lemma ById_Inr: "ById st key = Inr setting \<Longrightarrow> byIdFault st key = None \<and> Id' setting = key"
  by (auto simp: ById_def split: option.splits)

lemma Update_Inl: "Update st setting val = Inl err \<longleftrightarrow> updateFault st (Id' setting) val = Some err"
  by (simp add: Update_def split: option.splits)

lemma Update_Inr:
  "Update st setting val = Inr st' \<Longrightarrow>
     updateFault st (Id' setting) val = None \<and> db st' = (db st)(Id' setting \<mapsto> val) \<and>
     byIdFault st' = byIdFault st \<and> updateFault st' = updateFault st"
  by (auto simp: Update_def split: option.splits)

lemma updateSettings_skip:
  assumes "settings key = None \<or> settings key = Some []"
  shows "db (snd (updateSettings st order settings)) key = db st key"
  using assms
proof (induction order arbitrary: st)
  case Nil
  show ?case by simp
next
  case (Cons k rest)
  show ?case
  proof (cases "settings k")
    case None
    then show ?thesis using Cons by simp
  next
    case (Some val)
    show ?thesis
    proof (cases "val = []")
      case True
      then show ?thesis using Some Cons by simp
    next
      case False
      with Some Cons.prems have neq: "k \<noteq> key" by auto
      show ?thesis
      proof (cases "ById st k")
        case (Inl err)
        then show ?thesis using Some False by simp
      next
        case (Inr setting)
        then have sid: "Id' setting = k" by (simp add: ById_Inr)
        show ?thesis
        proof (cases "Update st setting val")
          case (Inl err)
          then show ?thesis using Some False Inr by simp
        next
          case (Inr st')
          then have "db st' key = db st key"
            using Update_Inr [OF Inr] sid neq by simp
          then show ?thesis
            using Some False \<open>ById st k = Inr setting\<close> Inr Cons.IH [OF Cons.prems, of st'] by simp
        qed
      qed
    qed
  qed
qed

lemma updateSettings_removeAll:
  assumes "settings key = None \<or> settings key = Some []"
  shows "updateSettings st (removeAll key order) settings = updateSettings st order settings"
  using assms
proof (induction order arbitrary: st)
  case Nil
  show ?case by simp
next
  case (Cons k rest)
  then show ?case
    by (auto split: option.splits sum.splits)
qed

lemma updateSettings_error:
  "fst (updateSettings st order settings) = Some err \<Longrightarrow>
     \<exists>key val. key \<in> set order \<and> settings key = Some val \<and> val \<noteq> [] \<and>
       (byIdFault st key = Some err \<or> updateFault st key val = Some err)"
proof (induction order arbitrary: st)
  case Nil
  then show ?case by simp
next
  case (Cons k rest)
  show ?case
  proof (cases "settings k")
    case None
    then have "fst (updateSettings st rest settings) = Some err" using Cons.prems by simp
    from Cons.IH [OF this] show ?thesis by auto
  next
    case (Some val)
    show ?thesis
    proof (cases "val = []")
      case True
      then have "fst (updateSettings st rest settings) = Some err"
        using Some Cons.prems by simp
      from Cons.IH [OF this] show ?thesis by auto
    next
      case False
      show ?thesis
      proof (cases "ById st k")
        case (Inl e)
        then have "err = e" using Cons.prems Some False by simp
        then show ?thesis using Inl Some False by (auto simp: ById_Inl)
      next
        case (Inr setting)
        then have sid: "Id' setting = k" by (simp add: ById_Inr)
        show ?thesis
        proof (cases "Update st setting val")
          case (Inl e)
          then have "err = e" using Cons.prems Some False Inr by simp
          then show ?thesis using Inl Some False sid by (auto simp: Update_Inl)
        next
          case st': (Inr st')
          then have "fst (updateSettings st' rest settings) = Some err"
            using Cons.prems Some False Inr by simp
          from Cons.IH [OF this] obtain key v where
            "key \<in> set rest" "settings key = Some v" "v \<noteq> []"
            "byIdFault st' key = Some err \<or> updateFault st' key v = Some err" by blast
          then show ?thesis using Update_Inr [OF st'] by auto
        qed
      qed
    qed
  qed
qed

lemma updateSettings_db:
  "db (snd (updateSettings st order settings)) key = db st key \<or>
   db (snd (updateSettings st order settings)) key = settings key"
proof (induction order arbitrary: st)
  case Nil
  show ?case by simp
next
  case (Cons k rest)
  show ?case
  proof (cases "settings k")
    case None
    then show ?thesis using Cons.IH [of st] by simp
  next
    case (Some v)
    show ?thesis
    proof (cases "v = []")
      case True
      then show ?thesis using Some Cons.IH [of st] by simp
    next
      case False
      show ?thesis
      proof (cases "ById st k")
        case (Inl e)
        then show ?thesis using Some False by simp
      next
        case (Inr setting)
        then have sid: "Id' setting = k" by (simp add: ById_Inr)
        show ?thesis
        proof (cases "Update st setting v")
          case (Inl e)
          then show ?thesis using Some False Inr by simp
        next
          case st': (Inr st')
          have run: "updateSettings st (k # rest) settings = updateSettings st' rest settings"
            using Some False Inr st' by simp
          have "db st' key = db st key \<or> db st' key = settings key"
            using Update_Inr [OF st'] sid Some by auto
          then show ?thesis using Cons.IH [of st'] run by auto
        qed
      qed
    qed
  qed
qed

lemma updateSettings_done:
  "fst (updateSettings st order settings) = None \<Longrightarrow> key \<in> set order \<Longrightarrow>
   settings key = Some val \<Longrightarrow> val \<noteq> [] \<Longrightarrow>
     byIdFault st key = None \<and> updateFault st key val = None \<and>
     db (snd (updateSettings st order settings)) key = Some val"
proof (induction order arbitrary: st)
  case Nil
  then show ?case by simp
next
  case (Cons k rest)
  show ?case
  proof (cases "settings k")
    case None
    then have "k \<noteq> key" using Cons.prems by auto
    then show ?thesis using None Cons by simp
  next
    case (Some v)
    show ?thesis
    proof (cases "v = []")
      case True
      then have "k \<noteq> key" using Some Cons.prems by auto
      then show ?thesis using Some True Cons by simp
    next
      case False
      show ?thesis
      proof (cases "ById st k")
        case (Inl e)
        then show ?thesis using Cons.prems Some False by simp
      next
        case (Inr setting)
        then have sid: "Id' setting = k" and nof: "byIdFault st k = None"
          by (simp_all add: ById_Inr)
        show ?thesis
        proof (cases "Update st setting v")
          case (Inl e)
          then show ?thesis using Cons.prems Some False Inr by simp
        next
          case st': (Inr st')
          note U = Update_Inr [OF st']
          have run: "updateSettings st (k # rest) settings = updateSettings st' rest settings"
            using Some False Inr st' by simp
          have ok: "fst (updateSettings st' rest settings) = None"
            using Cons.prems(1) run by simp
          show ?thesis
          proof (cases "k = key")
            case True
            then have vv: "v = val" using Some Cons.prems(3) by simp
            have "db st' key = Some val" using U sid True vv by simp
            then have "db (snd (updateSettings st' rest settings)) key = Some val"
              using updateSettings_db [of st' rest settings key] Cons.prems(3) by auto
            then show ?thesis using run U sid nof True vv by simp
          next
            case False
            then have "key \<in> set rest" using Cons.prems(2) by simp
            from Cons.IH [OF ok this Cons.prems(3,4)] show ?thesis
              using run U by simp
          qed
        qed
      qed
    qed
  qed
qed

subsection \<open>The settings map of UpdateConfig\<close>

lemma providerSettings_of_generic:
  "providerSettings_of P s np authConfig accessModeSetting = Some (AccessMode authConfig)"
  "providerSettings_of P s np authConfig allowedIdentitiesSetting =
     Some (getAllowedIDString s (AllowedIdentities authConfig))"
  "providerSettings_of P s np authConfig securitySetting = Some (FormatBool (Enabled authConfig))"
  "providerSettings_of P s np authConfig providerNameSetting = Some (Provider authConfig)"
  by (simp_all add: providerSettings_of_def Let_def setting_keys)

lemma providerSettings_of_provider:
  "providerSettings_of P s np authConfig providerSetting =
     (if Enabled authConfig then Some (Provider authConfig) else GetSettings P np providerSetting)"
  by (simp add: providerSettings_of_def Let_def setting_keys)

lemma UpdateConfig_db:
  "initProviderWithConfig P authConfig = Inr np \<Longrightarrow>
     rancherClient (snd (UpdateConfig P order authConfig s)) =
       snd (updateSettings (rancherClient s) order (providerSettings_of P s np authConfig))"
  by (simp add: UpdateConfig_def split: prod.splits option.splits)

lemma UpdateConfig_init_fails:
  "initProviderWithConfig P authConfig = Inl err \<Longrightarrow>
     UpdateConfig P order authConfig s = (Some err, s)"
  by (simp add: UpdateConfig_def)

lemma UpdateConfig_cases:
  assumes "initProviderWithConfig P authConfig = Inr np"
  shows "(\<exists>err. fst (updateSettings (rancherClient s) order (providerSettings_of P s np authConfig)) = Some err \<and>
            fst (UpdateConfig P order authConfig s) = Some err \<and>
            provider (snd (UpdateConfig P order authConfig s)) = provider s \<and>
            authConfigInMemory (snd (UpdateConfig P order authConfig s)) = authConfigInMemory s) \<or>
         (fst (updateSettings (rancherClient s) order (providerSettings_of P s np authConfig)) = None \<and>
            fst (UpdateConfig P order authConfig s) = None \<and>
            provider (snd (UpdateConfig P order authConfig s)) = Some np \<and>
            authConfigInMemory (snd (UpdateConfig P order authConfig s)) = authConfig)"
  using assms by (auto simp: UpdateConfig_def split: prod.splits option.splits)

subsection \<open>Splitting and joining\<close>

lemma Split_no_sep: "sep \<notin> set e \<Longrightarrow> Split e sep = [e]"
  by (induction e) auto

lemma Split_at_sep: "sep \<notin> set e \<Longrightarrow> Split (e @ sep # rest) sep = e # Split rest sep"
  by (induction e) auto

lemma Split_Join:
  "es \<noteq> [] \<Longrightarrow> \<forall>e\<in>set es. sep \<notin> set e \<Longrightarrow> Split (Join es [sep]) sep = es"
proof (induction es "[sep]" rule: Join.induct)
  case 1
  then show ?case by simp
next
  case (2 a)
  then show ?case by (simp add: Split_no_sep)
next
  case (3 a b rest)
  then show ?case by (simp add: Split_at_sep)
qed

lemma Join_Nil: "Join es [sep] = [] \<longleftrightarrow> es = [] \<or> es = [[]]"
  by (induction es "[sep]" rule: Join.induct) auto

lemma SplitN2_no_sep:
  assumes "sep \<notin> set e"
  shows "SplitN2 e sep = [e]"
proof -
  have d: "dropWhile (\<lambda>c. c \<noteq> sep) e = []"
    using assms by (auto simp: dropWhile_eq_Nil_conv)
  show ?thesis by (simp only: SplitN2_def d list.case)
qed

lemma SplitN2_at_sep: "sep \<notin> set t \<Longrightarrow> SplitN2 (t @ sep # x) sep = [t, x]"
  by (simp add: SplitN2_def dropWhile_append3 takeWhile_tail dropWhile_append
        split: list.splits)

subsection \<open>Resolving the allow-list\<close>

lemma getAllowedIdentities_loop_append:
  "getAllowedIdentities_loop P s accessToken (xs @ ys) =
     getAllowedIdentities_loop P s accessToken xs @ getAllowedIdentities_loop P s accessToken ys"
  by (induction xs) (auto simp: Let_def split: option.splits sum.splits)

lemma getAllowedIdentities_Join:
  assumes "\<forall>e\<in>set es. CHR '','' \<notin> set e"
  shows "getAllowedIdentities P s (Join es '','') accessToken =
           getAllowedIdentities_loop P s accessToken es"
proof (cases "es = [] \<or> es = [[]]")
  case True
  then show ?thesis
    by (auto simp: getAllowedIdentities_def SplitN2_def)
next
  case False
  then have "Join es '','' \<noteq> []" by (simp add: Join_Nil)
  moreover have "Split (Join es '','') CHR '','' = es"
    using False assms by (simp add: Split_Join)
  ultimately show ?thesis by (simp add: getAllowedIdentities_def)
qed

lemma getAllowedIdentities_loop_malformed:
  "CHR '':'' \<notin> set e \<Longrightarrow> getAllowedIdentities_loop P s accessToken [e] = []"
  by (simp add: SplitN2_no_sep)

lemma getAllowedIdentities_loop_stub:
  assumes "provider s = None \<or> accessToken = []" and "CHR '':'' \<notin> set ty"
  shows "getAllowedIdentities_loop P s accessToken [ty @ '':'' @ eid] =
           [\<lparr>Id' = ty @ '':'' @ eid, Type = ''identity'', ExternalId = eid, ExternalIdType = ty,
             Login = [], Name = [], ProfilePicture = [], ProfileUrl = []\<rparr>]"
  using assms by (auto simp: SplitN2_at_sep Let_def split: option.splits)

subsection \<open>Reading the config back\<close>

lemma readSettings_loop_result:
  "readSettings_loop st keys acc = (m, None) \<Longrightarrow>
     m k = (if k \<in> set keys then Some (case db st k of None \<Rightarrow> [] | Some v \<Rightarrow> v) else acc k)"
proof (induction keys arbitrary: acc)
  case Nil
  then show ?case by simp
next
  case (Cons key rest)
  show ?case
  proof (cases "ById st key")
    case (Inl err)
    then show ?thesis using Cons.prems by simp
  next
    case (Inr setting)
    then have v: "ActiveValue setting = (case db st key of None \<Rightarrow> [] | Some v \<Rightarrow> v)"
      by (auto simp: ById_def split: option.splits)
    have "readSettings_loop st rest (acc(key \<mapsto> ActiveValue setting)) = (m, None)"
      using Cons.prems Inr by simp
    from Cons.IH [OF this] v show ?thesis by auto
  qed
qed

lemma readSettings_result:
  "readSettings st keys = (m, None) \<Longrightarrow> k \<in> set keys \<Longrightarrow>
     index m k = (case db st k of None \<Rightarrow> [] | Some v \<Rightarrow> v)"
  using readSettings_loop_result [of st keys Map.empty m k]
  by (simp add: readSettings_def index_def)

lemma ParseBool_FormatBool: "ParseBool (FormatBool b) = Inr b"
  by (simp add: ParseBool_def FormatBool_def)

lemma GetConfig_result:
  assumes "GetConfig P accessToken s = (config, None)"
  shows "\<exists>q ps c. config = AddProviderConfig P q c ps \<and>
           AccessMode c = (case db (rancherClient s) accessModeSetting of None \<Rightarrow> [] | Some v \<Rightarrow> v) \<and>
           AllowedIdentities c =
             getAllowedIdentities P s
               (case db (rancherClient s) allowedIdentitiesSetting of None \<Rightarrow> [] | Some v \<Rightarrow> v)
               accessToken \<and>
           Enabled c =
             (case ParseBool (case db (rancherClient s) securitySetting of None \<Rightarrow> [] | Some v \<Rightarrow> v) of
                Inr enabled \<Rightarrow> enabled | Inl err \<Rightarrow> False) \<and>
           Provider c = (case db (rancherClient s) providerNameSetting of None \<Rightarrow> [] | Some v \<Rightarrow> v)"
proof -
  let ?keys = "[accessModeSetting, allowedIdentitiesSetting, securitySetting,
                providerSetting, providerNameSetting]"
  obtain m r where rd: "readSettings (rancherClient s) ?keys = (m, r)"
    by (cases "readSettings (rancherClient s) ?keys")
  have r: "r = None"
    using assms rd by (cases r) (simp_all add: GetConfig_def Let_def)
  note R = readSettings_result [OF rd [unfolded r]]
  have v: "index m accessModeSetting =
             (case db (rancherClient s) accessModeSetting of None \<Rightarrow> [] | Some v \<Rightarrow> v)"
     "index m allowedIdentitiesSetting =
             (case db (rancherClient s) allowedIdentitiesSetting of None \<Rightarrow> [] | Some v \<Rightarrow> v)"
     "index m securitySetting =
             (case db (rancherClient s) securitySetting of None \<Rightarrow> [] | Some v \<Rightarrow> v)"
     "index m providerNameSetting =
             (case db (rancherClient s) providerNameSetting of None \<Rightarrow> [] | Some v \<Rightarrow> v)"
    by (simp_all add: R)
  obtain q where q: "GetProvider P (index m providerNameSetting) = Some q"
    using assms rd r
    by (cases "GetProvider P (index m providerNameSetting)") (simp_all add: GetConfig_def Let_def)
  obtain ps err where ps: "readSettings (rancherClient s) (GetProviderSettingList P q) = (ps, err)"
    by (cases "readSettings (rancherClient s) (GetProviderSettingList P q)")
  define c where "c =
    \<lparr>Id' = [], Type = ''config'', Provider = index m providerNameSetting,
     Enabled = (case ParseBool (index m securitySetting) of Inr enabled \<Rightarrow> enabled | Inl err \<Rightarrow> False),
     AccessMode = index m accessModeSetting,
     AllowedIdentities = getAllowedIdentities P s (index m allowedIdentitiesSetting) accessToken,
     ProviderConfig = []\<rparr>"
  have "config = AddProviderConfig P q c ps"
    using assms rd r q ps by (simp add: GetConfig_def Let_def c_def)
  then show ?thesis
    by (intro exI [of _ q] exI [of _ ps] exI [of _ c]) (simp add: c_def v)
qed

lemma getAllowedIdentities_loop_entry:
  assumes "\<forall>p eid ty tok i. GetIdentity' P p eid ty tok = Inr i \<longrightarrow>
             ExternalId i = eid \<and> ExternalIdType i = ty"
    and "CHR '':'' \<notin> set ty"
  shows "\<exists>j. getAllowedIdentities_loop P s accessToken [ty @ '':'' @ eid] = [j] \<and>
              ExternalIdType j = ty \<and> ExternalId j = eid"
proof -
  have sp: "SplitN2 (ty @ CHR '':'' # eid) CHR '':'' = [ty, eid]"
    using assms(2) by (simp add: SplitN2_at_sep)
  show ?thesis
  proof (cases "provider s")
    case None
    then show ?thesis by (simp add: sp Let_def)
  next
    case (Some p)
    show ?thesis
    proof (cases "accessToken = []")
      case True
      then show ?thesis using Some by (simp add: sp Let_def)
    next
      case False
      show ?thesis
      proof (cases "GetIdentity' P p eid ty accessToken")
        case (Inl err)
        then show ?thesis using Some False by (simp add: sp Let_def)
      next
        case (Inr i)
        then have "ExternalId i = eid \<and> ExternalIdType i = ty"
          using assms(1) by blast
        then show ?thesis using Some False Inr by (simp add: sp Let_def)
      qed
    qed
  qed
qed

lemma getAllowedIdentities_loop_member:
  assumes "\<forall>p eid ty tok i. GetIdentity' P p eid ty tok = Inr i \<longrightarrow>
             ExternalId i = eid \<and> ExternalIdType i = ty"
    and "CHR '':'' \<notin> set ty"
    and "ty @ '':'' @ eid \<in> set es"
  shows "\<exists>j\<in>set (getAllowedIdentities_loop P s accessToken es).
            ExternalIdType j = ty \<and> ExternalId j = eid"
proof -
  from assms(3) obtain xs ys where es: "es = xs @ [ty @ '':'' @ eid] @ ys"
    by (auto dest: split_list)
  from getAllowedIdentities_loop_entry [OF assms(1,2), of s accessToken eid]
  obtain j where j: "getAllowedIdentities_loop P s accessToken [ty @ '':'' @ eid] = [j]"
    and fields: "ExternalIdType j = ty" "ExternalId j = eid" by blast
  have "getAllowedIdentities_loop P s accessToken es =
          getAllowedIdentities_loop P s accessToken xs @ [j] @
          getAllowedIdentities_loop P s accessToken ys"
    unfolding es by (simp only: getAllowedIdentities_loop_append j)
  then show ?thesis
    using fields by auto
qed

section \<open>The claims\<close>

text \<open>
  Claim C1, as amended. \<^verbatim>\<open>UpdateConfig\<close> succeeds, with a visiting order that holds
  the four generic keys, and the \<^verbatim>\<open>GetConfig\<close> that follows succeeds, with any access
  token; the provider's \<^verbatim>\<open>AddProviderConfig\<close> leaves the generic fields alone. Then,
  whether or not a provider was active before the update, the config read back has the
  enabled flag of the config written, its provider name when that is not empty, and its
  access mode when that is not empty. When moreover a provider was active before the
  update, each allowed identity has the id \<open>type:externalId\<close> with no colon in the
  type and no comma in the id, and the provider's \<^verbatim>\<open>GetIdentity\<close> answers with the
  type and external id it was asked for, the config read back lists, for each allowed
  identity of the config written, an identity of the same type and external id.
\<close>

theorem UpdateConfig_GetConfig_roundtrip:
  assumes update: "UpdateConfig P order authConfig s = (None, s')"
    and get: "GetConfig P accessToken s' = (config, None)"
    and visited: "{accessModeSetting, allowedIdentitiesSetting, securitySetting,
                   providerNameSetting} \<subseteq> set order"
    and hydrate: "\<forall>p c ps. Provider (AddProviderConfig P p c ps) = Provider c \<and>
                    Enabled (AddProviderConfig P p c ps) = Enabled c \<and>
                    AccessMode (AddProviderConfig P p c ps) = AccessMode c \<and>
                    AllowedIdentities (AddProviderConfig P p c ps) = AllowedIdentities c"
  shows "(Provider authConfig \<noteq> [] \<longrightarrow> Provider config = Provider authConfig) \<and>
         Enabled config = Enabled authConfig \<and>
         (AccessMode authConfig \<noteq> [] \<longrightarrow> AccessMode config = AccessMode authConfig) \<and>
         (provider s \<noteq> None \<and>
          (\<forall>i\<in>set (AllowedIdentities authConfig).
             Id' i = ExternalIdType i @ '':'' @ ExternalId i \<and>
             CHR '':'' \<notin> set (ExternalIdType i) \<and> CHR '','' \<notin> set (Id' i)) \<and>
          (\<forall>p eid ty tok i. GetIdentity' P p eid ty tok = Inr i \<longrightarrow>
             ExternalId i = eid \<and> ExternalIdType i = ty) \<longrightarrow>
          (\<forall>i\<in>set (AllowedIdentities authConfig).
             \<exists>j\<in>set (AllowedIdentities config).
               ExternalIdType j = ExternalIdType i \<and> ExternalId j = ExternalId i))"
proof -
  obtain np where init: "initProviderWithConfig P authConfig = Inr np"
    using update by (cases "initProviderWithConfig P authConfig") (simp_all add: UpdateConfig_def)
  let ?m = "providerSettings_of P s np authConfig"
  let ?st = "rancherClient s'"
  have ok: "fst (updateSettings (rancherClient s) order ?m) = None"
    using UpdateConfig_cases [OF init, of s order] update by auto
  have st: "?st = snd (updateSettings (rancherClient s) order ?m)"
    using UpdateConfig_db [OF init, of order s] update by simp
  have stored: "db ?st key = Some val"
    if "key \<in> set order" "?m key = Some val" "val \<noteq> []" for key val
    using updateSettings_done [OF ok that] st by simp
  have a: "db ?st accessModeSetting = Some (AccessMode authConfig)"
    if "AccessMode authConfig \<noteq> []"
    using visited that by (intro stored) (simp_all add: providerSettings_of_generic)
  have n: "db ?st providerNameSetting = Some (Provider authConfig)"
    if "Provider authConfig \<noteq> []"
    using visited that by (intro stored) (simp_all add: providerSettings_of_generic)
  have e: "db ?st securitySetting = Some (FormatBool (Enabled authConfig))"
    using visited by (intro stored) (simp_all add: providerSettings_of_generic FormatBool_def)
  from GetConfig_result [OF get] obtain q ps c where
    config: "config = AddProviderConfig P q c ps"
    and c: "AccessMode c = (case db ?st accessModeSetting of None \<Rightarrow> [] | Some v \<Rightarrow> v)"
      "AllowedIdentities c =
         getAllowedIdentities P s'
           (case db ?st allowedIdentitiesSetting of None \<Rightarrow> [] | Some v \<Rightarrow> v) accessToken"
      "Enabled c = (case ParseBool (case db ?st securitySetting of None \<Rightarrow> [] | Some v \<Rightarrow> v) of
                      Inr enabled \<Rightarrow> enabled | Inl err \<Rightarrow> False)"
      "Provider c = (case db ?st providerNameSetting of None \<Rightarrow> [] | Some v \<Rightarrow> v)"
    by blast
  have name: "Provider config = Provider authConfig" if "Provider authConfig \<noteq> []"
    using hydrate c n [OF that] by (simp add: config)
  have flag: "Enabled config = Enabled authConfig"
    using hydrate c e by (simp add: config ParseBool_FormatBool)
  have access: "AccessMode config = AccessMode authConfig" if "AccessMode authConfig \<noteq> []"
    using hydrate c a [OF that] by (simp add: config)
  have listed: "\<exists>j\<in>set (AllowedIdentities config).
                  ExternalIdType j = ExternalIdType i \<and> ExternalId j = ExternalId i"
    if active: "provider s \<noteq> None"
      and ids: "\<forall>i\<in>set (AllowedIdentities authConfig).
                  Id' i = ExternalIdType i @ '':'' @ ExternalId i \<and>
                  CHR '':'' \<notin> set (ExternalIdType i) \<and> CHR '','' \<notin> set (Id' i)"
      and resolve: "\<forall>p eid ty tok i. GetIdentity' P p eid ty tok = Inr i \<longrightarrow>
                      ExternalId i = eid \<and> ExternalIdType i = ty"
      and i: "i \<in> set (AllowedIdentities authConfig)" for i
  proof -
    let ?ids = "map Id' (AllowedIdentities authConfig)"
    have idi: "Id' i = ExternalIdType i @ '':'' @ ExternalId i"
      and nocolon: "CHR '':'' \<notin> set (ExternalIdType i)"
      using ids i by auto
    have nocomma: "\<forall>e\<in>set ?ids. CHR '','' \<notin> set e"
      using ids by auto
    have "?ids \<noteq> []" "?ids \<noteq> [[]]"
      using i idi by (auto simp: map_eq_Cons_conv)
    then have nonempty: "Join ?ids '','' \<noteq> []"
      by (simp add: Join_Nil)
    have "?m allowedIdentitiesSetting = Some (Join ?ids '','')"
      using active by (simp add: providerSettings_of_generic getAllowedIDString_def)
    then have "db ?st allowedIdentitiesSetting = Some (Join ?ids '','')"
      using visited nonempty by (intro stored) simp_all
    then have "AllowedIdentities c = getAllowedIdentities_loop P s' accessToken ?ids"
      using c(2) nocomma by (simp add: getAllowedIdentities_Join)
    moreover have "ExternalIdType i @ '':'' @ ExternalId i \<in> set ?ids"
      using i idi by force
    ultimately show ?thesis
      using getAllowedIdentities_loop_member [OF resolve nocolon, of "ExternalId i" ?ids s' accessToken]
        hydrate
      by (simp add: config)
  qed
  show ?thesis using name flag access listed by blast
qed

theorem UpdateConfig_GetConfig_roundtrip_witness:
  "Provider (fst (GetConfig ex_providers ''tok''
      (snd (UpdateConfig ex_providers ex_order ex_config ex_running)))) = ''githubconfig'' \<and>
   Enabled (fst (GetConfig ex_providers ''tok''
      (snd (UpdateConfig ex_providers ex_order ex_config ex_running)))) = True \<and>
   AccessMode (fst (GetConfig ex_providers ''tok''
      (snd (UpdateConfig ex_providers ex_order ex_config ex_running)))) = ''restricted'' \<and>
   (\<exists>j\<in>set (AllowedIdentities (fst (GetConfig ex_providers ''tok''
      (snd (UpdateConfig ex_providers ex_order ex_config ex_running))))).
      ExternalIdType j = ''user'' \<and> ExternalId j = ''abc'') \<and>
   Provider (fst (GetConfig ex_providers ''tok''
      (snd (UpdateConfig ex_providers ex_order ex_config ex_start)))) = ''githubconfig'' \<and>
   Enabled (fst (GetConfig ex_providers ''tok''
      (snd (UpdateConfig ex_providers ex_order ex_config ex_start)))) = True \<and>
   AccessMode (fst (GetConfig ex_providers ''tok''
      (snd (UpdateConfig ex_providers ex_order ex_config ex_start)))) = ''restricted''"
proof -
  let ?s' = "snd (UpdateConfig ex_providers ex_order ex_config ex_running)"
  let ?config = "fst (GetConfig ex_providers ''tok'' ?s')"
  let ?t' = "snd (UpdateConfig ex_providers ex_order ex_config ex_start)"
  let ?first = "fst (GetConfig ex_providers ''tok'' ?t')"
  have "fst (UpdateConfig ex_providers ex_order ex_config ex_running) = None"
    by (simp add: UpdateConfig_def initProviderWithConfig_def providerSettings_of_def
        getAllowedIDString_def FormatBool_def ById_def Update_def Let_def setting_keys
        ex_providers_def ex_config_def ex_identity_def ex_order_def ex_running_def ex_client_def)
  then have update: "UpdateConfig ex_providers ex_order ex_config ex_running = (None, ?s')"
    by (simp add: prod_eq_iff)
  have "snd (GetConfig ex_providers ''tok'' ?s') = None"
    by (simp add: UpdateConfig_def GetConfig_def readSettings_def initProviderWithConfig_def
        providerSettings_of_def getAllowedIDString_def getAllowedIdentities_def SplitN2_def
        FormatBool_def ParseBool_def ById_def Update_def index_def Let_def setting_keys
        ex_providers_def ex_config_def ex_identity_def ex_order_def ex_running_def ex_client_def)
  then have get: "GetConfig ex_providers ''tok'' ?s' = (?config, None)"
    by (simp add: prod_eq_iff)
  have "fst (UpdateConfig ex_providers ex_order ex_config ex_start) = None"
    by (simp add: UpdateConfig_def initProviderWithConfig_def providerSettings_of_def
        getAllowedIDString_def FormatBool_def ById_def Update_def Let_def setting_keys
        ex_providers_def ex_config_def ex_identity_def ex_order_def ex_start_def ex_client_def)
  then have update1: "UpdateConfig ex_providers ex_order ex_config ex_start = (None, ?t')"
    by (simp add: prod_eq_iff)
  have "snd (GetConfig ex_providers ''tok'' ?t') = None"
    by (simp add: UpdateConfig_def GetConfig_def readSettings_def initProviderWithConfig_def
        providerSettings_of_def getAllowedIDString_def getAllowedIdentities_def SplitN2_def
        FormatBool_def ParseBool_def ById_def Update_def index_def Let_def setting_keys
        ex_providers_def ex_config_def ex_identity_def ex_order_def ex_start_def ex_client_def)
  then have get1: "GetConfig ex_providers ''tok'' ?t' = (?first, None)"
    by (simp add: prod_eq_iff)
  have active: "provider ex_running \<noteq> None"
    by (simp add: ex_running_def)
  have visited: "{accessModeSetting, allowedIdentitiesSetting, securitySetting,
                  providerNameSetting} \<subseteq> set ex_order"
    by (simp add: ex_order_def)
  have named: "Provider ex_config \<noteq> []" and mode: "AccessMode ex_config \<noteq> []"
    by (simp_all add: ex_config_def)
  have ids: "\<forall>i\<in>set (AllowedIdentities ex_config).
                Id' i = ExternalIdType i @ '':'' @ ExternalId i \<and>
                CHR '':'' \<notin> set (ExternalIdType i) \<and> CHR '','' \<notin> set (Id' i)"
    by (simp add: ex_config_def ex_identity_def)
  have resolve: "\<forall>p eid ty tok i. GetIdentity' ex_providers p eid ty tok = Inr i \<longrightarrow>
                    ExternalId i = eid \<and> ExternalIdType i = ty"
    by (auto simp: ex_providers_def split: if_splits)
  have hydrate: "\<forall>p c ps. Provider (AddProviderConfig ex_providers p c ps) = Provider c \<and>
                    Enabled (AddProviderConfig ex_providers p c ps) = Enabled c \<and>
                    AccessMode (AddProviderConfig ex_providers p c ps) = AccessMode c \<and>
                    AllowedIdentities (AddProviderConfig ex_providers p c ps) = AllowedIdentities c"
    by (simp add: ex_providers_def)
  note running = UpdateConfig_GetConfig_roundtrip [OF update get visited hydrate]
  note first = UpdateConfig_GetConfig_roundtrip [OF update1 get1 visited hydrate]
  have listed: "\<forall>i\<in>set (AllowedIdentities ex_config).
             \<exists>j\<in>set (AllowedIdentities ?config).
               ExternalIdType j = ExternalIdType i \<and> ExternalId j = ExternalId i"
    using running active ids resolve by blast
  have "Provider ?config = Provider ex_config" "Enabled ?config = Enabled ex_config"
    "AccessMode ?config = AccessMode ex_config"
    "Provider ?first = Provider ex_config" "Enabled ?first = Enabled ex_config"
    "AccessMode ?first = AccessMode ex_config"
    using running first named mode by blast+
  with listed show ?thesis
    by (simp add: ex_config_def ex_identity_def)
qed

text \<open>
  Claim C1 as stated fails on the first update of a server with no active provider: the
  update and the read both succeed, the config written lists one allowed identity, and
  the config read back lists none.
\<close>

theorem UpdateConfig_GetConfig_first_update:
  "provider ex_start = None \<and>
   GetProvider ex_providers (Provider ex_config) = Some [] \<and>
   AllowedIdentities ex_config = [ex_identity] \<and>
   fst (UpdateConfig ex_providers ex_order ex_config ex_start) = None \<and>
   snd (GetConfig ex_providers ''tok''
          (snd (UpdateConfig ex_providers ex_order ex_config ex_start))) = None \<and>
   AllowedIdentities (fst (GetConfig ex_providers ''tok''
          (snd (UpdateConfig ex_providers ex_order ex_config ex_start)))) = []"
  by (simp add: UpdateConfig_def GetConfig_def readSettings_def initProviderWithConfig_def
      providerSettings_of_def getAllowedIDString_def getAllowedIdentities_def
      FormatBool_def ParseBool_def ById_def Update_def index_def Let_def setting_keys
      ex_providers_def ex_config_def ex_identity_def ex_order_def ex_start_def ex_client_def)

text \<open>
  Claim C2. The settings service fails to read the provider's own key
  \<open>api.github.domain\<close>, and \<^verbatim>\<open>readSettings\<close> reports the error. \<^verbatim>\<open>GetConfig\<close> still
  returns no error, with the provider's field hydrated from the empty map, and
  \<^verbatim>\<open>Reload\<close> returns no error either and installs that config.
\<close>

theorem GetConfig_drops_provider_read_error:
  "byIdFault (rancherClient ex_read_fault) ''api.github.domain'' = Some (External ''timeout'') \<and>
   GetProviderSettingList ex_providers [] = [''api.github.domain''] \<and>
   readSettings (rancherClient ex_read_fault) [''api.github.domain''] =
     (Map.empty, Some (External ''timeout'')) \<and>
   snd (GetConfig ex_providers [] ex_read_fault) = None \<and>
   ProviderConfig (fst (GetConfig ex_providers [] ex_read_fault)) = [(''api.github.domain'', [])] \<and>
   fst (Reload ex_providers ex_read_fault) = None \<and>
   ProviderConfig (authConfigInMemory (snd (Reload ex_providers ex_read_fault))) =
     [(''api.github.domain'', [])]"
  by (simp add: GetConfig_def Reload_def readSettings_def ById_def initProviderWithConfig_def
      getAllowedIdentities_def SplitN2_def ParseBool_def index_def Let_def
      setting_keys ex_read_fault_def ex_running_def ex_client_def ex_providers_def)

text \<open>
  Claim C3. When the provider field of the config is the empty string and the registry
  knows no provider of that name, \<^verbatim>\<open>UpdateConfig\<close> returns an error and leaves the
  server as it was: the active provider, the config in memory and every stored setting.
  The handler answers with status 400 (an invalid request) and changes nothing either.
\<close>

theorem UpdateConfig_empty_provider:
  assumes "Provider authConfig = []"
    and "GetProvider P [] = None"
  shows "UpdateConfig P order authConfig s = (Some (CouldNotGetProvider []), s) \<and>
         UpdateConfig_handler P order authConfig s =
           ([(400, ''Bad Request, Please check the request content, Provider is a required field''),
             (400, ''Bad Request, Please check the request content'')], s)"
  using assms
  by (simp add: UpdateConfig_handler_def UpdateConfig_def initProviderWithConfig_def)

theorem UpdateConfig_empty_provider_witness:
  "UpdateConfig ex_providers ex_order ex_empty ex_running = (Some (CouldNotGetProvider []), ex_running) \<and>
   fst (UpdateConfig_handler ex_providers ex_order ex_empty ex_running) =
     [(400, ''Bad Request, Please check the request content, Provider is a required field''),
      (400, ''Bad Request, Please check the request content'')] \<and>
   snd (UpdateConfig_handler ex_providers ex_order ex_empty ex_running) = ex_running"
  using UpdateConfig_empty_provider [where authConfig = ex_empty and P = ex_providers
      and order = ex_order and s = ex_running]
  by (simp add: ex_empty_def ex_providers_def)

text \<open>
  Claim C4. Wherever an entry without a colon stands in the serialised allow-list, it
  yields no identity, and the entries before and after it are resolved as without it:
  this holds for every provider state and every access token. With no active provider or
  with an empty access token, wherever an entry \<open>ty:eid\<close> stands in the list (\<open>ty\<close>
  without a colon, so that the entry is split at its first colon and \<open>eid\<close> may hold
  more colons), it yields the stub identity whose id is the entry, whose type is \<open>ty\<close>
  and whose external id is \<open>eid\<close>, between the identities of the entries before it and
  those of the entries after it; the string \<open>user:abc\<close> alone yields the stub with id
  \<open>user:abc\<close>, type \<open>user\<close> and external id \<open>abc\<close>.
\<close>

theorem getAllowedIdentities_stubs:
  assumes "\<forall>e\<in>set (before @ after). CHR '','' \<notin> set e"
  shows "((provider s = None \<or> accessToken = []) \<and>
          CHR '':'' \<notin> set ty \<and> CHR '','' \<notin> set (ty @ eid) \<longrightarrow>
            getAllowedIdentities P s (Join (before @ [ty @ '':'' @ eid] @ after) '','') accessToken =
              getAllowedIdentities P s (Join before '','') accessToken @
              [\<lparr>Id' = ty @ '':'' @ eid, Type = ''identity'', ExternalId = eid, ExternalIdType = ty,
                Login = [], Name = [], ProfilePicture = [], ProfileUrl = []\<rparr>] @
              getAllowedIdentities P s (Join after '','') accessToken) \<and>
         (CHR '':'' \<notin> set e \<and> CHR '','' \<notin> set e \<longrightarrow>
            getAllowedIdentities P s (Join (before @ [e] @ after) '','') accessToken =
              getAllowedIdentities P s (Join before '','') accessToken @
              getAllowedIdentities P s (Join after '','') accessToken) \<and>
         (provider s = None \<or> accessToken = [] \<longrightarrow>
            getAllowedIdentities P s ''user:abc'' accessToken =
              [\<lparr>Id' = ''user:abc'', Type = ''identity'', ExternalId = ''abc'', ExternalIdType = ''user'',
                Login = [], Name = [], ProfilePicture = [], ProfileUrl = []\<rparr>])"
proof -
  have parts: "getAllowedIdentities P s (Join (before @ [x] @ after) '','') accessToken =
          getAllowedIdentities P s (Join before '','') accessToken @
          getAllowedIdentities_loop P s accessToken [x] @
          getAllowedIdentities P s (Join after '','') accessToken"
    if "CHR '','' \<notin> set x" for x
  proof -
    have "\<forall>e\<in>set (before @ [x] @ after). CHR '','' \<notin> set e"
      using assms that by auto
    moreover have "\<forall>e\<in>set before. CHR '','' \<notin> set e" "\<forall>e\<in>set after. CHR '','' \<notin> set e"
      using assms by auto
    ultimately show ?thesis
      by (simp only: getAllowedIdentities_Join getAllowedIdentities_loop_append)
  qed
  have one: "getAllowedIdentities P s ''user:abc'' accessToken =
               getAllowedIdentities_loop P s accessToken [''user'' @ '':'' @ ''abc'']"
    using getAllowedIdentities_Join [of "[''user:abc'']" P s accessToken] by simp
  have stub: "getAllowedIdentities P s ''user:abc'' accessToken =
           [\<lparr>Id' = ''user:abc'', Type = ''identity'', ExternalId = ''abc'', ExternalIdType = ''user'',
             Login = [], Name = [], ProfilePicture = [], ProfileUrl = []\<rparr>]"
    if np: "provider s = None \<or> accessToken = []"
    unfolding one
    using getAllowedIdentities_loop_stub [OF np, of "''user''" P "''abc''"] by simp
  have entry: "getAllowedIdentities_loop P s accessToken [ty @ '':'' @ eid] =
           [\<lparr>Id' = ty @ '':'' @ eid, Type = ''identity'', ExternalId = eid, ExternalIdType = ty,
             Login = [], Name = [], ProfilePicture = [], ProfileUrl = []\<rparr>]"
    if "provider s = None \<or> accessToken = []" "CHR '':'' \<notin> set ty"
    using getAllowedIdentities_loop_stub [OF that, of P eid] .
  have malformed: "getAllowedIdentities_loop P s accessToken [e] = []" if "CHR '':'' \<notin> set e"
    using getAllowedIdentities_loop_malformed [OF that] .
  show ?thesis
    using parts [of "ty @ '':'' @ eid"] parts [of e] stub entry malformed
    by auto
qed

theorem getAllowedIdentities_stubs_witness:
  "getAllowedIdentities ex_providers ex_running ''org:a:b,malformed,user:abc'' ''tok'' =
     getAllowedIdentities ex_providers ex_running ''org:a:b'' ''tok'' @
     getAllowedIdentities ex_providers ex_running ''user:abc'' ''tok'' \<and>
   getAllowedIdentities ex_providers ex_start ''org:a:b,malformed,user:abc'' ''tok'' =
     getAllowedIdentities ex_providers ex_start ''org:a:b'' ''tok'' @
     getAllowedIdentities ex_providers ex_start ''user:abc'' ''tok'' \<and>
   getAllowedIdentities ex_providers ex_start ''org:a:b,user:abc'' ''tok'' =
     getAllowedIdentities ex_providers ex_start ''org:a:b'' ''tok'' @
     [\<lparr>Id' = ''user:abc'', Type = ''identity'', ExternalId = ''abc'', ExternalIdType = ''user'',
       Login = [], Name = [], ProfilePicture = [], ProfileUrl = []\<rparr>] \<and>
   getAllowedIdentities ex_providers ex_running ''user:abc'' [] =
     [\<lparr>Id' = ''user:abc'', Type = ''identity'', ExternalId = ''abc'', ExternalIdType = ''user'',
       Login = [], Name = [], ProfilePicture = [], ProfileUrl = []\<rparr>]"
proof -
  have np: "provider ex_start = None \<or> ''tok'' = []"
    by (simp add: ex_start_def)
  have nc: "\<forall>e\<in>set ([''org:a:b''] @ [''user:abc'']). CHR '','' \<notin> set e"
    by simp
  have nc': "\<forall>e\<in>set ([''org:a:b''] @ []). CHR '','' \<notin> set e"
    by simp
  from getAllowedIdentities_stubs [OF nc, where e = "''malformed''" and P = ex_providers
      and s = ex_running and accessToken = "''tok''"]
    getAllowedIdentities_stubs [OF nc, where e = "''malformed''" and P = ex_providers
      and s = ex_start and accessToken = "''tok''"]
    getAllowedIdentities_stubs [OF nc', where ty = "''user''" and eid = "''abc''"
      and P = ex_providers and s = ex_start and accessToken = "''tok''"]
    getAllowedIdentities_stubs [OF nc', where P = ex_providers and s = ex_running
      and accessToken = "[]"]
    np
  show ?thesis
    by (simp add: getAllowedIdentities_def)
qed

text \<open>
  Claim C5. With no active provider, \<^verbatim>\<open>CreateToken\<close> and \<^verbatim>\<open>RefreshToken\<close> fail with
  the error "No auth provider configured", whatever the input, the provider methods and
  the signer are: none of them is consulted and no token is produced.
\<close>

theorem no_provider_no_token:
  assumes "provider s = None"
  shows "CreateToken P CreateTokenWithPayload s securityCode = Inl NoAuthProviderConfigured \<and>
         RefreshToken P CreateTokenWithPayload s accessToken = Inl NoAuthProviderConfigured"
  using assms by (simp add: CreateToken_def RefreshToken_def)

theorem no_provider_no_token_witness:
  "CreateToken ex_providers ex_sign ex_start ''code'' = Inl NoAuthProviderConfigured \<and>
   RefreshToken ex_providers ex_sign ex_start ''tok'' = Inl NoAuthProviderConfigured"
  using no_provider_no_token [where s = ex_start and P = ex_providers
      and CreateTokenWithPayload = ex_sign and securityCode = "''code''" and accessToken = "''tok''"]
  by (simp add: ex_start_def)

text \<open>
  Claim C6. The payload that \<^verbatim>\<open>CreateToken\<close> and \<^verbatim>\<open>RefreshToken\<close> hand to the signer
  holds the identities the provider returned and, as id list, exactly the \<^verbatim>\<open>Id\<close> fields
  of those identities, in the same order and of the same length.
\<close>

theorem payload_idList_derived:
  assumes "provider s = Some p"
  shows "(\<forall>token. GenerateToken P p securityCode = Inr token \<longrightarrow>
            CreateToken P CreateTokenWithPayload s securityCode =
              CreateTokenWithPayload (payload_of token)) \<and>
         (\<forall>token. RefreshToken' P p accessToken = Inr token \<longrightarrow>
            RefreshToken P CreateTokenWithPayload s accessToken =
              CreateTokenWithPayload (payload_of token)) \<and>
         payload_of token ''identities'' = Some (Identities (IdentityList token)) \<and>
         payload_of token ''idList'' = Some (StrList (map Id' (IdentityList token))) \<and>
         length (identitiesToIDList identities) = length identities \<and>
         (\<forall>n<length identities. identitiesToIDList identities ! n = Id' (identities ! n))"
  using assms
  by (simp add: CreateToken_def RefreshToken_def payload_of_def identitiesToIDList_def)

theorem payload_idList_derived_witness:
  "CreateToken ex_providers ex_sign ex_running ''code'' = ex_sign (payload_of ex_token) \<and>
   RefreshToken ex_providers ex_sign ex_running ''tok'' = ex_sign (payload_of ex_token) \<and>
   payload_of ex_token ''identities'' = Some (Identities [ex_identity]) \<and>
   payload_of ex_token ''idList'' = Some (StrList [''user:abc'']) \<and>
   identitiesToIDList [ex_identity] ! 0 = ''user:abc''"
proof -
  have active: "provider ex_running = Some []"
    by (simp add: ex_running_def)
  have gen: "GenerateToken ex_providers [] ''code'' = Inr ex_token"
    and ref: "RefreshToken' ex_providers [] ''tok'' = Inr ex_token"
    by (simp_all add: ex_providers_def)
  from payload_idList_derived [OF active, where P = ex_providers and securityCode = "''code''"
      and accessToken = "''tok''" and CreateTokenWithPayload = ex_sign and token = ex_token
      and identities = "[ex_identity]"] gen ref
  show ?thesis
    by (simp add: ex_token_def ex_identity_def)
qed

text \<open>
  Claim C7. An \<^verbatim>\<open>UpdateConfig\<close> whose config has \<open>enabled = false\<close> leaves the stored
  value of the "configured provider" key as it was, whether the call succeeds or fails,
  for a provider that exports no value under that key; with \<open>enabled = true\<close> a successful
  call stores the provider's name under it.
\<close>

theorem configured_provider_key_kept:
  assumes "\<forall>np. initProviderWithConfig P authConfig = Inr np \<longrightarrow>
             GetSettings P np providerSetting = None \<or> GetSettings P np providerSetting = Some []"
  shows "(\<not> Enabled authConfig \<longrightarrow>
            db (rancherClient (snd (UpdateConfig P order authConfig s))) providerSetting =
              db (rancherClient s) providerSetting) \<and>
         (Enabled authConfig \<and> Provider authConfig \<noteq> [] \<and> providerSetting \<in> set order \<and>
          fst (UpdateConfig P order authConfig s) = None \<longrightarrow>
            db (rancherClient (snd (UpdateConfig P order authConfig s))) providerSetting =
              Some (Provider authConfig))"
proof (cases "initProviderWithConfig P authConfig")
  case (Inl err)
  then show ?thesis by (simp add: UpdateConfig_init_fails)
next
  case (Inr np)
  let ?m = "providerSettings_of P s np authConfig"
  have st: "rancherClient (snd (UpdateConfig P order authConfig s)) =
              snd (updateSettings (rancherClient s) order ?m)"
    by (rule UpdateConfig_db [OF Inr])
  have off: "\<not> Enabled authConfig \<Longrightarrow> ?m providerSetting = None \<or> ?m providerSetting = Some []"
    using assms Inr by (simp add: providerSettings_of_provider)
  have on: "Enabled authConfig \<Longrightarrow> ?m providerSetting = Some (Provider authConfig)"
    by (simp add: providerSettings_of_provider)
  have ok: "fst (UpdateConfig P order authConfig s) = None \<Longrightarrow>
              fst (updateSettings (rancherClient s) order ?m) = None"
    using UpdateConfig_cases [OF Inr, of s order] by auto
  show ?thesis
    using st updateSettings_skip [where settings = ?m and key = providerSetting
        and st = "rancherClient s" and order = order]
      updateSettings_done [where settings = ?m and key = providerSetting
        and st = "rancherClient s" and order = order and val = "Provider authConfig"]
      off on ok
    by auto
qed

theorem configured_provider_key_kept_witness:
  "db (rancherClient (snd (UpdateConfig ex_providers ex_order ex_disabled ex_running))) providerSetting =
     Some ''githubconfig''"
  using configured_provider_key_kept [where P = ex_providers and authConfig = ex_disabled
      and order = ex_order and s = ex_running]
  by (simp add: initProviderWithConfig_def setting_keys ex_providers_def ex_disabled_def
      ex_config_def ex_running_def ex_client_def)

text \<open>
  Claim C8. Once the new provider is initialised, \<^verbatim>\<open>UpdateConfig\<close> fails exactly when a
  write of the settings loop fails: the error it returns is the error of a failing read
  or update of a key the loop visits, and the active provider and the config in memory
  stay as they were. A key of the settings map with a non-empty value whose write fails
  makes the call fail. When the call succeeds, no visited write has failed, every
  visited non-empty value is stored, and only then the pair is the new provider and the
  new config.
\<close>

theorem UpdateConfig_write_failure:
  assumes "initProviderWithConfig P authConfig = Inr newProvider"
  shows "(\<forall>err. fst (UpdateConfig P order authConfig s) = Some err \<longrightarrow>
            (\<exists>key val. key \<in> set order \<and>
               providerSettings_of P s newProvider authConfig key = Some val \<and> val \<noteq> [] \<and>
               (byIdFault (rancherClient s) key = Some err \<or>
                updateFault (rancherClient s) key val = Some err)) \<and>
            provider (snd (UpdateConfig P order authConfig s)) = provider s \<and>
            authConfigInMemory (snd (UpdateConfig P order authConfig s)) = authConfigInMemory s) \<and>
         (\<forall>key val. key \<in> set order \<and>
            providerSettings_of P s newProvider authConfig key = Some val \<and> val \<noteq> [] \<and>
            (byIdFault (rancherClient s) key \<noteq> None \<or>
             updateFault (rancherClient s) key val \<noteq> None) \<longrightarrow>
            fst (UpdateConfig P order authConfig s) \<noteq> None) \<and>
         (fst (UpdateConfig P order authConfig s) = None \<longrightarrow>
            provider (snd (UpdateConfig P order authConfig s)) = Some newProvider \<and>
            authConfigInMemory (snd (UpdateConfig P order authConfig s)) = authConfig \<and>
            (\<forall>key val. key \<in> set order \<and>
               providerSettings_of P s newProvider authConfig key = Some val \<and> val \<noteq> [] \<longrightarrow>
               db (rancherClient (snd (UpdateConfig P order authConfig s))) key = Some val))"
proof -
  let ?m = "providerSettings_of P s newProvider authConfig"
  let ?u = "updateSettings (rancherClient s) order ?m"
  note C = UpdateConfig_cases [OF assms, of s order]
  note D = UpdateConfig_db [OF assms, of order s]
  have a: "fst (UpdateConfig P order authConfig s) = Some err \<Longrightarrow>
            (\<exists>key val. key \<in> set order \<and> ?m key = Some val \<and> val \<noteq> [] \<and>
               (byIdFault (rancherClient s) key = Some err \<or>
                updateFault (rancherClient s) key val = Some err)) \<and>
            provider (snd (UpdateConfig P order authConfig s)) = provider s \<and>
            authConfigInMemory (snd (UpdateConfig P order authConfig s)) = authConfigInMemory s"
    for err
  proof -
    assume f: "fst (UpdateConfig P order authConfig s) = Some err"
    with C have "fst ?u = Some err" by auto
    from updateSettings_error [OF this] f C show ?thesis by auto
  qed
  have c: "fst (UpdateConfig P order authConfig s) = None \<Longrightarrow> key \<in> set order \<Longrightarrow>
           ?m key = Some val \<Longrightarrow> val \<noteq> [] \<Longrightarrow>
             byIdFault (rancherClient s) key = None \<and> updateFault (rancherClient s) key val = None \<and>
             db (rancherClient (snd (UpdateConfig P order authConfig s))) key = Some val"
    for key val
  proof -
    assume f: "fst (UpdateConfig P order authConfig s) = None"
      and k: "key \<in> set order" "?m key = Some val" "val \<noteq> []"
    from f C have "fst ?u = None" by auto
    from updateSettings_done [OF this k] D show ?thesis by simp
  qed
  have b: "key \<in> set order \<Longrightarrow> ?m key = Some val \<Longrightarrow> val \<noteq> [] \<Longrightarrow>
           byIdFault (rancherClient s) key \<noteq> None \<or> updateFault (rancherClient s) key val \<noteq> None \<Longrightarrow>
           fst (UpdateConfig P order authConfig s) \<noteq> None"
    for key val
    using c [of key val] by (cases "fst (UpdateConfig P order authConfig s)") auto
  have d: "fst (UpdateConfig P order authConfig s) = None \<Longrightarrow>
            provider (snd (UpdateConfig P order authConfig s)) = Some newProvider \<and>
            authConfigInMemory (snd (UpdateConfig P order authConfig s)) = authConfig"
    using C by auto
  show ?thesis
    using a b c d by blast
qed

theorem UpdateConfig_write_failure_witness:
  "fst (UpdateConfig ex_providers ex_order ex_config ex_write_fault) \<noteq> None \<and>
   provider (snd (UpdateConfig ex_providers ex_order ex_config ex_write_fault)) = Some [] \<and>
   authConfigInMemory (snd (UpdateConfig ex_providers ex_order ex_config ex_write_fault)) = ex_config"
proof -
  have init: "initProviderWithConfig ex_providers ex_config =
                Inr [(''api.github.domain'', ''github.example.com'')]"
    by (simp add: initProviderWithConfig_def ex_providers_def ex_config_def)
  have key: "accessModeSetting \<in> set ex_order"
    by (simp add: ex_order_def)
  have val: "providerSettings_of ex_providers ex_write_fault
               [(''api.github.domain'', ''github.example.com'')] ex_config accessModeSetting =
             Some ''restricted''"
    by (simp add: providerSettings_of_generic ex_config_def)
  have fault: "updateFault (rancherClient ex_write_fault) accessModeSetting ''restricted'' \<noteq> None"
    by (simp add: ex_write_fault_def)
  have before: "provider ex_write_fault = Some []" "authConfigInMemory ex_write_fault = ex_config"
    by (simp_all add: ex_write_fault_def ex_running_def)
  from UpdateConfig_write_failure [OF init, of ex_order ex_write_fault] key val fault
  have fails: "fst (UpdateConfig ex_providers ex_order ex_config ex_write_fault) \<noteq> None"
    by blast
  then obtain err where "fst (UpdateConfig ex_providers ex_order ex_config ex_write_fault) = Some err"
    by auto
  with UpdateConfig_write_failure [OF init, of ex_order ex_write_fault] before fails
  show ?thesis by simp
qed

text \<open>
  Claim C9. The settings loop skips a key whose new value is the empty string: the
  stored value of the key stays as it was, and the loop runs as if the key were not in
  the visiting order at all (no read, no update, no failure from that key). So an
  \<^verbatim>\<open>UpdateConfig\<close> with an empty access mode leaves the stored access mode as it was.
\<close>

theorem updateSettings_skips_empty:
  assumes "settings key = Some []"
  shows "db (snd (updateSettings st order settings)) key = db st key \<and>
         updateSettings st order settings = updateSettings st (removeAll key order) settings \<and>
         (AccessMode authConfig = [] \<longrightarrow>
            db (rancherClient (snd (UpdateConfig P order authConfig s))) accessModeSetting =
              db (rancherClient s) accessModeSetting)"
proof -
  have "db (rancherClient (snd (UpdateConfig P order authConfig s))) accessModeSetting =
          db (rancherClient s) accessModeSetting"
    if "AccessMode authConfig = []"
  proof (cases "initProviderWithConfig P authConfig")
    case (Inl err)
    then show ?thesis by (simp add: UpdateConfig_init_fails)
  next
    case (Inr np)
    show ?thesis
      using UpdateConfig_db [OF Inr, of order s] that
        updateSettings_skip [where settings = "providerSettings_of P s np authConfig"
          and key = accessModeSetting and st = "rancherClient s" and order = order]
      by (simp add: providerSettings_of_generic)
  qed
  then show ?thesis
    using assms updateSettings_skip [of settings key st order]
      updateSettings_removeAll [of settings key st order]
    by simp
qed

theorem updateSettings_skips_empty_witness:
  "db (snd (updateSettings (rancherClient ex_running) ex_order
         [accessModeSetting \<mapsto> [], securitySetting \<mapsto> ''false''])) accessModeSetting =
     Some ''unrestricted'' \<and>
   db (rancherClient (snd (UpdateConfig ex_providers ex_order (ex_config\<lparr>AccessMode := []\<rparr>)
         ex_running))) accessModeSetting =
     Some ''unrestricted''"
proof -
  note T = updateSettings_skips_empty [where settings = "[accessModeSetting \<mapsto> [], securitySetting \<mapsto> ''false'']"
      and key = accessModeSetting and st = "rancherClient ex_running" and order = ex_order
      and authConfig = "ex_config\<lparr>AccessMode := []\<rparr>" and P = ex_providers and s = ex_running]
  have h: "[accessModeSetting \<mapsto> [], securitySetting \<mapsto> ''false''] accessModeSetting = Some []"
    by (simp add: setting_keys)
  have before: "db (rancherClient ex_running) accessModeSetting = Some ''unrestricted''"
    by (simp add: setting_keys ex_running_def ex_client_def)
  from T [OF h, THEN conjunct1] T [OF h, THEN conjunct2, THEN conjunct2] before
  show ?thesis by simp
qed

text \<open>
  Claim C10. The allow-list is serialised against the provider that is active before the
  call, not the one being installed: while no provider is active the serialised string
  is empty whatever identities the config lists, it is the value the settings map holds
  for the allow-list key, and \<^verbatim>\<open>UpdateConfig\<close> leaves the stored allow-list as it was.
\<close>

theorem allow_list_not_persisted_without_provider:
  assumes "provider s = None"
  shows "getAllowedIDString s allowedIdentities = [] \<and>
         providerSettings_of P s newProvider authConfig allowedIdentitiesSetting = Some [] \<and>
         db (rancherClient (snd (UpdateConfig P order authConfig s))) allowedIdentitiesSetting =
           db (rancherClient s) allowedIdentitiesSetting"
proof -
  have e: "getAllowedIDString s ids = []" for ids
    using assms by (simp add: getAllowedIDString_def)
  have m: "providerSettings_of P s np authConfig allowedIdentitiesSetting = Some []" for np
    by (simp add: providerSettings_of_generic e)
  have "db (rancherClient (snd (UpdateConfig P order authConfig s))) allowedIdentitiesSetting =
           db (rancherClient s) allowedIdentitiesSetting"
  proof (cases "initProviderWithConfig P authConfig")
    case (Inl err)
    then show ?thesis by (simp add: UpdateConfig_init_fails)
  next
    case (Inr np)
    show ?thesis
      using UpdateConfig_db [OF Inr, of order s] m [of np]
        updateSettings_skip [where settings = "providerSettings_of P s np authConfig"
          and key = allowedIdentitiesSetting and st = "rancherClient s" and order = order]
      by simp
  qed
  with e m show ?thesis by simp
qed

theorem allow_list_not_persisted_without_provider_witness:
  "getAllowedIDString ex_start [ex_identity] = [] \<and>
   db (rancherClient (snd (UpdateConfig ex_providers ex_order ex_config ex_start)))
     allowedIdentitiesSetting = None"
  using allow_list_not_persisted_without_provider [where s = ex_start and P = ex_providers
      and order = ex_order and authConfig = ex_config and allowedIdentities = "[ex_identity]"]
  by (simp add: ex_start_def ex_client_def)


end
